theory Spec2Isabelle
  imports Main "HOL-Library.Multiset" "HOL-Library.Char_ord" "HOL-Library.List_Lexorder"
begin

section \<open>The persisted schema\<close>

text \<open>
  The tables of the migration script (\<^verbatim>\<open>src/unnamed/part_000\<close>). Identifiers are the
  UUIDs the client handles as strings; timestamps are readings of the store's clock.
  Text columns are compared with the lexicographic order on strings, which stands for
  the collation of the database. The \<^verbatim>\<open>profiles\<close> table is read or written by none of the
  three managers and is left out.
\<close>

type_synonym uuid = string
type_synonym timestamp = nat

record permission_row =
  p_id :: uuid
  p_name :: string
  p_description :: "string option"
  p_created_at :: timestamp
  p_updated_at :: timestamp

record role_row =
  r_id :: uuid
  r_name :: string
  r_description :: "string option"
  r_created_at :: timestamp
  r_updated_at :: timestamp

record role_permission_row =
  rp_role_id :: uuid
  rp_permission_id :: uuid
  rp_created_at :: timestamp

record user_role_row =
  ur_user_id :: uuid
  ur_role_id :: uuid
  ur_created_at :: timestamp

record database =
  tbl_permissions :: "permission_row list"
  tbl_roles :: "role_row list"
  tbl_role_permissions :: "role_permission_row list"
  tbl_user_roles :: "user_role_row list"

text \<open>
  A request to the store resolves to a result that carries either the data or an error;
  the handlers read the \<^verbatim>\<open>error\<close> field of that result (\<^verbatim>\<open>if (error) throw error\<close>).
\<close>

datatype store_error = UniqueViolation | ForeignKeyViolation | TransportFailure

text \<open>\<open>via ok r\<close> is the answer to a request: \<open>r\<close> when the request is delivered, a
  transport failure otherwise. Delivery is decided by the environment.\<close>

definition via :: "bool \<Rightarrow> store_error + 'a \<Rightarrow> store_error + 'a" where
  "via ok r = (if ok then r else Inl TransportFailure)"

subsection \<open>Queries\<close>

text \<open>\<^verbatim>\<open>from('permissions').select('*').order('name')\<close>\<close>

definition select_permissions :: "database \<Rightarrow> permission_row list" where
  "select_permissions d = sort_key p_name (tbl_permissions d)"

text \<open>\<^verbatim>\<open>from('roles').select('*').order('name')\<close>\<close>

definition select_roles :: "database \<Rightarrow> role_row list" where
  "select_roles d = sort_key r_name (tbl_roles d)"

subsection \<open>Statements on \<^verbatim>\<open>permissions\<close>\<close>

text \<open>\<^verbatim>\<open>insert({ name, description })\<close>: \<^verbatim>\<open>id\<close> and both timestamps take their defaults
  (\<^verbatim>\<open>gen_random_uuid()\<close>, \<^verbatim>\<open>now()\<close>), supplied here by the environment; the primary key
  and \<^verbatim>\<open>name TEXT NOT NULL UNIQUE\<close> are enforced.\<close>

definition insert_permission ::
  "database \<Rightarrow> uuid \<Rightarrow> timestamp \<Rightarrow> string \<Rightarrow> string \<Rightarrow> store_error + database" where
  "insert_permission d new_id now name description =
     (if new_id \<in> set (map p_id (tbl_permissions d)) \<or> name \<in> set (map p_name (tbl_permissions d))
      then Inl UniqueViolation
      else Inr (d\<lparr>tbl_permissions := tbl_permissions d @
             [\<lparr>p_id = new_id, p_name = name, p_description = Some description,
               p_created_at = now, p_updated_at = now\<rparr>]\<rparr>))"

text \<open>\<^verbatim>\<open>update({ name, description }).eq('id', id)\<close>: the rows with that id are rewritten and
  the trigger refreshes \<^verbatim>\<open>updated_at\<close>; no row matching is no error. The statement fails
  when the new name would occur twice.\<close>

definition update_permission ::
  "database \<Rightarrow> uuid \<Rightarrow> timestamp \<Rightarrow> string \<Rightarrow> string \<Rightarrow> store_error + database" where
  "update_permission d pid now name description =
     (let rows = map (\<lambda>row. if p_id row = pid
                            then row\<lparr>p_name := name, p_description := Some description,
                                     p_updated_at := now\<rparr>
                            else row) (tbl_permissions d)
      in if distinct (map p_name rows) then Inr (d\<lparr>tbl_permissions := rows\<rparr>)
         else Inl UniqueViolation)"

text \<open>\<^verbatim>\<open>delete().eq('id', id)\<close>, with
  \<^verbatim>\<open>permission_id ... REFERENCES public.permissions(id) ON DELETE CASCADE\<close>.\<close>

definition delete_permission :: "database \<Rightarrow> uuid \<Rightarrow> store_error + database" where
  "delete_permission d pid =
     Inr (d\<lparr>tbl_permissions := filter (\<lambda>row. p_id row \<noteq> pid) (tbl_permissions d),
            tbl_role_permissions :=
              filter (\<lambda>row. rp_permission_id row \<noteq> pid) (tbl_role_permissions d)\<rparr>)"

subsection \<open>Statements on \<^verbatim>\<open>roles\<close>\<close>

text \<open>\<^verbatim>\<open>delete().eq('id', id)\<close>; both junction tables reference \<^verbatim>\<open>roles(id)\<close> with
  \<^verbatim>\<open>ON DELETE CASCADE\<close>.\<close>

definition delete_role :: "database \<Rightarrow> uuid \<Rightarrow> store_error + database" where
  "delete_role d rid =
     Inr (d\<lparr>tbl_roles := filter (\<lambda>row. r_id row \<noteq> rid) (tbl_roles d),
            tbl_role_permissions :=
              filter (\<lambda>row. rp_role_id row \<noteq> rid) (tbl_role_permissions d),
            tbl_user_roles := filter (\<lambda>row. ur_role_id row \<noteq> rid) (tbl_user_roles d)\<rparr>)"

subsection \<open>Statements on \<^verbatim>\<open>role_permissions\<close>\<close>

text \<open>A row of the joined fetch of the assignment screen (\<^verbatim>\<open>interface RolePermission\<close>).\<close>

record RolePermission =
  role_id :: uuid
  permission_id :: uuid
  role_name :: string
  permission_name :: string

text \<open>\<^verbatim>\<open>select('role_id, permission_id, roles!inner(name), permissions!inner(name)')\<close>: an
  inner join with both parents, in the order of the table (the request names no order).
  \<open>join_row\<close> embeds the parents' names in one row, or drops the row when a parent is
  missing.\<close>

definition join_row :: "database \<Rightarrow> role_permission_row \<Rightarrow> RolePermission option" where
  "join_row d rp =
     (case find (\<lambda>r. r_id r = rp_role_id rp) (tbl_roles d) of
        None \<Rightarrow> None
      | Some r \<Rightarrow>
          (case find (\<lambda>p. p_id p = rp_permission_id rp) (tbl_permissions d) of
             None \<Rightarrow> None
           | Some p \<Rightarrow>
               Some \<lparr>role_id = rp_role_id rp, permission_id = rp_permission_id rp,
                     role_name = r_name r, permission_name = p_name p\<rparr>))"

definition select_role_permissions :: "database \<Rightarrow> RolePermission list" where
  "select_role_permissions d = List.map_filter (join_row d) (tbl_role_permissions d)"

text \<open>\<^verbatim>\<open>delete().eq('role_id', roleId)\<close>\<close>

definition delete_role_permissions :: "database \<Rightarrow> uuid \<Rightarrow> store_error + database" where
  "delete_role_permissions d roleId =
     Inr (d\<lparr>tbl_role_permissions :=
              filter (\<lambda>row. rp_role_id row \<noteq> roleId) (tbl_role_permissions d)\<rparr>)"

text \<open>\<^verbatim>\<open>delete().eq('role_id', roleId).eq('permission_id', permissionId)\<close>\<close>

definition delete_role_permission ::
  "database \<Rightarrow> uuid \<Rightarrow> uuid \<Rightarrow> store_error + database" where
  "delete_role_permission d roleId permissionId =
     Inr (d\<lparr>tbl_role_permissions :=
              filter (\<lambda>row. \<not> (rp_role_id row = roleId \<and> rp_permission_id row = permissionId))
                (tbl_role_permissions d)\<rparr>)"

text \<open>\<^verbatim>\<open>insert(insertData)\<close> with a list of \<^verbatim>\<open>{ role_id, permission_id }\<close>: one statement,
  so either every row is stored or none is. \<^verbatim>\<open>PRIMARY KEY (role_id, permission_id)\<close> and
  the two foreign keys are enforced; \<^verbatim>\<open>created_at\<close> takes its default.\<close>

definition insert_role_permissions ::
  "database \<Rightarrow> timestamp \<Rightarrow> (uuid \<times> uuid) list \<Rightarrow> store_error + database" where
  "insert_role_permissions d now insertData =
     (let present = map (\<lambda>row. (rp_role_id row, rp_permission_id row)) (tbl_role_permissions d)
      in if \<not> distinct (present @ insertData) then Inl UniqueViolation
         else if \<not> (\<forall>(roleId, permissionId) \<in> set insertData.
                      roleId \<in> set (map r_id (tbl_roles d)) \<and>
                      permissionId \<in> set (map p_id (tbl_permissions d)))
         then Inl ForeignKeyViolation
         else Inr (d\<lparr>tbl_role_permissions := tbl_role_permissions d @
                map (\<lambda>(roleId, permissionId).
                       \<lparr>rp_role_id = roleId, rp_permission_id = permissionId,
                        rp_created_at = now\<rparr>) insertData\<rparr>))"

section \<open>The dashboard\<close>

datatype table = Permissions | Roles | RolePermissions

text \<open>The requests a manager issues, as it writes them: the table, the payload as
  column/value pairs, and the \<^verbatim>\<open>eq\<close> filters.\<close>

datatype store_call =
    Select_call table "string option"
  | Insert_call table "(string \<times> string) list list"
  | Update_call table "(string \<times> string) list" "(string \<times> string) list"
  | Delete_call table "(string \<times> string) list"

datatype variant = Default | Destructive

datatype toast_text = Text string | Message store_error

record toast =
  toast_title :: string
  toast_description :: toast_text
  toast_variant :: variant

text \<open>
  The store, the requests issued so far, the notifications shown so far, and the React
  state of the three managers: \<open>pm_\<close> is \<^verbatim>\<open>PermissionsManager\<close>, \<open>rm_\<close> is
  \<^verbatim>\<open>RolesManager\<close>, the unprefixed fields are those of \<^verbatim>\<open>RolePermissionsManager\<close>.
\<close>

record world =
  db :: database
  calls :: "store_call list"
  toasts :: "toast list"
  pm_permissions :: "permission_row list"
  pm_loading :: bool
  pm_isDialogOpen :: bool
  pm_editingPermission :: "permission_row option"
  rm_roles :: "role_row list"
  rm_loading :: bool
  rm_isDialogOpen :: bool
  rm_editingRole :: "role_row option"
  roles :: "role_row list"
  permissions :: "permission_row list"
  rolePermissions :: "RolePermission list"
  selectedRole :: uuid
  selectedPermissions :: "uuid list"
  loading :: bool
  isDialogOpen :: bool

definition issue :: "store_call \<Rightarrow> world \<Rightarrow> world" where
  "issue c w = w\<lparr>calls := calls w @ [c]\<rparr>"

definition notify :: "toast \<Rightarrow> world \<Rightarrow> world" where
  "notify t w = w\<lparr>toasts := toasts w @ [t]\<rparr>"

definition success :: "string \<Rightarrow> toast" where
  "success msg = \<lparr>toast_title = ''Success'', toast_description = Text msg, toast_variant = Default\<rparr>"

definition failure :: "toast_text \<Rightarrow> toast" where
  "failure msg = \<lparr>toast_title = ''Error'', toast_description = msg, toast_variant = Destructive\<rparr>"

subsection \<open>\<^verbatim>\<open>PermissionsManager\<close>\<close>

text \<open>Each handler takes, before the state, what the environment decides during its run:
  whether each request is delivered, the administrator's answer to a confirmation, and
  the defaults the store fills in.\<close>

definition fetchPermissions :: "bool \<Rightarrow> world \<Rightarrow> world" where
  "fetchPermissions ok w =
     (let w1 = issue (Select_call Permissions (Some ''name'')) w in
      (case via ok (Inr (select_permissions (db w1))) of
         Inr data \<Rightarrow> w1\<lparr>pm_permissions := data\<rparr>
       | Inl e \<Rightarrow> notify (failure (Text ''Failed to fetch permissions'')) w1)
      \<lparr>pm_loading := False\<rparr>)"

definition pm_handleSubmit ::
  "string \<Rightarrow> string \<Rightarrow> bool \<Rightarrow> uuid \<Rightarrow> timestamp \<Rightarrow> bool \<Rightarrow> world \<Rightarrow> world" where
  "pm_handleSubmit name description ok new_id now ok_fetch w =
     (case pm_editingPermission w of
        Some editing \<Rightarrow>
          (let w1 = issue (Update_call Permissions
                             [(''name'', name), (''description'', description)]
                             [(''id'', p_id editing)]) w in
           case via ok (update_permission (db w1) (p_id editing) now name description) of
             Inl e \<Rightarrow> notify (failure (Message e)) w1
           | Inr d \<Rightarrow>
               fetchPermissions ok_fetch
                 ((notify (success ''Permission updated successfully'') (w1\<lparr>db := d\<rparr>))
                    \<lparr>pm_isDialogOpen := False, pm_editingPermission := None\<rparr>))
      | None \<Rightarrow>
          (let w1 = issue (Insert_call Permissions
                             [[(''name'', name), (''description'', description)]]) w in
           case via ok (insert_permission (db w1) new_id now name description) of
             Inl e \<Rightarrow> notify (failure (Message e)) w1
           | Inr d \<Rightarrow>
               fetchPermissions ok_fetch
                 ((notify (success ''Permission created successfully'') (w1\<lparr>db := d\<rparr>))
                    \<lparr>pm_isDialogOpen := False, pm_editingPermission := None\<rparr>)))"

definition pm_handleDelete :: "uuid \<Rightarrow> bool \<Rightarrow> bool \<Rightarrow> bool \<Rightarrow> world \<Rightarrow> world" where
  "pm_handleDelete pid confirmed ok ok_fetch w =
     (if \<not> confirmed then w
      else
        (let w1 = issue (Delete_call Permissions [(''id'', pid)]) w in
         case via ok (delete_permission (db w1) pid) of
           Inl e \<Rightarrow> notify (failure (Message e)) w1
         | Inr d \<Rightarrow>
             fetchPermissions ok_fetch
               (notify (success ''Permission deleted successfully'') (w1\<lparr>db := d\<rparr>))))"

definition pm_openEditDialog :: "permission_row \<Rightarrow> world \<Rightarrow> world" where
  "pm_openEditDialog permission w =
     w\<lparr>pm_editingPermission := Some permission, pm_isDialogOpen := True\<rparr>"

definition pm_openCreateDialog :: "world \<Rightarrow> world" where
  "pm_openCreateDialog w = w\<lparr>pm_editingPermission := None, pm_isDialogOpen := True\<rparr>"

subsection \<open>\<^verbatim>\<open>RolesManager\<close>\<close>

definition fetchRoles :: "bool \<Rightarrow> world \<Rightarrow> world" where
  "fetchRoles ok w =
     (let w1 = issue (Select_call Roles (Some ''name'')) w in
      (case via ok (Inr (select_roles (db w1))) of
         Inr data \<Rightarrow> w1\<lparr>rm_roles := data\<rparr>
       | Inl e \<Rightarrow> notify (failure (Text ''Failed to fetch roles'')) w1)
      \<lparr>rm_loading := False\<rparr>)"

definition rm_handleDelete :: "uuid \<Rightarrow> bool \<Rightarrow> bool \<Rightarrow> bool \<Rightarrow> world \<Rightarrow> world" where
  "rm_handleDelete rid confirmed ok ok_fetch w =
     (if \<not> confirmed then w
      else
        (let w1 = issue (Delete_call Roles [(''id'', rid)]) w in
         case via ok (delete_role (db w1) rid) of
           Inl e \<Rightarrow> notify (failure (Message e)) w1
         | Inr d \<Rightarrow>
             fetchRoles ok_fetch
               (notify (success ''Role deleted successfully'') (w1\<lparr>db := d\<rparr>))))"

subsection \<open>\<^verbatim>\<open>RolePermissionsManager\<close>\<close>

text \<open>The three requests of \<^verbatim>\<open>Promise.all\<close> are all issued; one failing result discards
  the other two.\<close>

definition fetchData :: "bool \<Rightarrow> bool \<Rightarrow> bool \<Rightarrow> world \<Rightarrow> world" where
  "fetchData ok_roles ok_permissions ok_rps w =
     (let w1 = issue (Select_call RolePermissions None)
                 (issue (Select_call Permissions (Some ''name''))
                    (issue (Select_call Roles (Some ''name'')) w));
          rolesResult = via ok_roles (Inr (select_roles (db w1)));
          permissionsResult = via ok_permissions (Inr (select_permissions (db w1)));
          rolePermissionsResult = via ok_rps (Inr (select_role_permissions (db w1)))
      in (case rolesResult of
            Inl e \<Rightarrow> notify (failure (Text ''Failed to fetch data'')) w1
          | Inr rs \<Rightarrow>
              (case permissionsResult of
                 Inl e \<Rightarrow> notify (failure (Text ''Failed to fetch data'')) w1
               | Inr ps \<Rightarrow>
                   (case rolePermissionsResult of
                      Inl e \<Rightarrow> notify (failure (Text ''Failed to fetch data'')) w1
                    | Inr rps \<Rightarrow>
                        w1\<lparr>roles := rs, permissions := ps, rolePermissions := rps\<rparr>)))
         \<lparr>loading := False\<rparr>)"

text \<open>The result of the first request is awaited and dropped: its \<^verbatim>\<open>error\<close> field is not
  read.\<close>

definition handleAssignPermissions ::
  "bool \<Rightarrow> bool \<Rightarrow> timestamp \<Rightarrow> bool \<Rightarrow> bool \<Rightarrow> bool \<Rightarrow> world \<Rightarrow> world" where
  "handleAssignPermissions ok_delete ok_insert now ok_roles ok_permissions ok_rps w =
     (if selectedRole w = '''' \<or> length (selectedPermissions w) = 0 then
        notify (failure (Text ''Please select a role and at least one permission'')) w
      else
        (let w1 = issue (Delete_call RolePermissions [(''role_id'', selectedRole w)]) w;
             w2 = (case via ok_delete (delete_role_permissions (db w1) (selectedRole w1)) of
                     Inl e \<Rightarrow> w1
                   | Inr d \<Rightarrow> w1\<lparr>db := d\<rparr>);
             insertData = map (\<lambda>permissionId. (selectedRole w2, permissionId))
                            (selectedPermissions w2);
             w3 = issue (Insert_call RolePermissions
                           (map (\<lambda>(roleId, permissionId).
                                   [(''role_id'', roleId), (''permission_id'', permissionId)])
                              insertData)) w2
         in case via ok_insert (insert_role_permissions (db w3) now insertData) of
              Inl e \<Rightarrow> notify (failure (Message e)) w3
            | Inr d \<Rightarrow>
                fetchData ok_roles ok_permissions ok_rps
                  ((notify (success ''Permissions assigned successfully'') (w3\<lparr>db := d\<rparr>))
                     \<lparr>isDialogOpen := False, selectedRole := '''',
                      selectedPermissions := []\<rparr>)))"

definition handleRemovePermission ::
  "uuid \<Rightarrow> uuid \<Rightarrow> bool \<Rightarrow> bool \<Rightarrow> bool \<Rightarrow> bool \<Rightarrow> world \<Rightarrow> world" where
  "handleRemovePermission roleId permissionId ok ok_roles ok_permissions ok_rps w =
     (let w1 = issue (Delete_call RolePermissions
                        [(''role_id'', roleId), (''permission_id'', permissionId)]) w in
      case via ok (delete_role_permission (db w1) roleId permissionId) of
        Inl e \<Rightarrow> notify (failure (Message e)) w1
      | Inr d \<Rightarrow>
          fetchData ok_roles ok_permissions ok_rps
            (notify (success ''Permission removed successfully'') (w1\<lparr>db := d\<rparr>)))"

definition getRolePermissions :: "uuid \<Rightarrow> world \<Rightarrow> RolePermission list" where
  "getRolePermissions roleId w = filter (\<lambda>rp. role_id rp = roleId) (rolePermissions w)"

definition openAssignDialog :: "world \<Rightarrow> world" where
  "openAssignDialog w = w\<lparr>selectedRole := '''', selectedPermissions := [], isDialogOpen := True\<rparr>"

definition handleRoleSelect :: "uuid \<Rightarrow> world \<Rightarrow> world" where
  "handleRoleSelect roleId w =
     (let existingPermissions = map permission_id (getRolePermissions roleId w)
      in w\<lparr>selectedRole := roleId, selectedPermissions := existingPermissions\<rparr>)"

definition handlePermissionToggle :: "uuid \<Rightarrow> bool \<Rightarrow> world \<Rightarrow> world" where
  "handlePermissionToggle permissionId checked w =
     (if checked then w\<lparr>selectedPermissions := selectedPermissions w @ [permissionId]\<rparr>
      else w\<lparr>selectedPermissions := filter (\<lambda>id. id \<noteq> permissionId) (selectedPermissions w)\<rparr>)"

section \<open>Integrity and example states\<close>

text \<open>The constraints the schema declares: both primary keys and both \<^verbatim>\<open>UNIQUE\<close> names,
  the composite keys of the junction tables, and their references to \<^verbatim>\<open>roles\<close> and
  \<^verbatim>\<open>permissions\<close>.\<close>

definition consistent :: "database \<Rightarrow> bool" where
  "consistent d \<longleftrightarrow>
     distinct (map p_id (tbl_permissions d)) \<and> distinct (map p_name (tbl_permissions d)) \<and>
     distinct (map r_id (tbl_roles d)) \<and> distinct (map r_name (tbl_roles d)) \<and>
     distinct (map (\<lambda>row. (rp_role_id row, rp_permission_id row)) (tbl_role_permissions d)) \<and>
     (\<forall>row \<in> set (tbl_role_permissions d).
        rp_role_id row \<in> set (map r_id (tbl_roles d)) \<and>
        rp_permission_id row \<in> set (map p_id (tbl_permissions d))) \<and>
     distinct (map (\<lambda>row. (ur_user_id row, ur_role_id row)) (tbl_user_roles d)) \<and>
     (\<forall>row \<in> set (tbl_user_roles d). ur_role_id row \<in> set (map r_id (tbl_roles d)))"

text \<open>A small store in the shape of the seed data, with two assignments made.\<close>

definition seeded :: database where
  "seeded =
     \<lparr>tbl_permissions =
        [\<lparr>p_id = ''p1'', p_name = ''write:users'',
          p_description = Some ''Can create and update users'',
          p_created_at = 1, p_updated_at = 1\<rparr>,
         \<lparr>p_id = ''p2'', p_name = ''read:users'',
          p_description = Some ''Can view user information'',
          p_created_at = 1, p_updated_at = 1\<rparr>],
      tbl_roles =
        [\<lparr>r_id = ''r1'', r_name = ''Viewer'', r_description = Some ''Read-only access'',
          r_created_at = 1, r_updated_at = 1\<rparr>,
         \<lparr>r_id = ''r2'', r_name = ''Administrator'', r_description = Some ''Full system access'',
          r_created_at = 1, r_updated_at = 1\<rparr>],
      tbl_role_permissions =
        [\<lparr>rp_role_id = ''r1'', rp_permission_id = ''p2'', rp_created_at = 2\<rparr>,
         \<lparr>rp_role_id = ''r2'', rp_permission_id = ''p1'', rp_created_at = 2\<rparr>,
         \<lparr>rp_role_id = ''r2'', rp_permission_id = ''p2'', rp_created_at = 2\<rparr>],
      tbl_user_roles =
        [\<lparr>ur_user_id = ''u1'', ur_role_id = ''r1'', ur_created_at = 3\<rparr>,
         \<lparr>ur_user_id = ''u2'', ur_role_id = ''r2'', ur_created_at = 3\<rparr>]\<rparr>"

text \<open>The dashboard before any effect has run: the initial values of every
  \<^verbatim>\<open>useState\<close>.\<close>

definition opened :: world where
  "opened =
     \<lparr>db = seeded, calls = [], toasts = [],
      pm_permissions = [], pm_loading = True, pm_isDialogOpen = False,
      pm_editingPermission = None,
      rm_roles = [], rm_loading = True, rm_isDialogOpen = False, rm_editingRole = None,
      roles = [], permissions = [], rolePermissions = [], selectedRole = '''',
      selectedPermissions = [], loading = True, isDialogOpen = False\<rparr>"

text \<open>The dashboard after the three \<^verbatim>\<open>useEffect\<close> fetches have succeeded.\<close>

definition mounted :: world where
  "mounted = fetchData True True True (fetchRoles True (fetchPermissions True opened))"

text \<open>The assignment dialog with the role \<^verbatim>\<open>r1\<close> chosen and its one permission unticked:
  a role, but an empty selection.\<close>

definition unticked :: world where
  "unticked = handlePermissionToggle ''p2'' False (handleRoleSelect ''r1'' mounted)"

text \<open>The same dialog after ticking \<^verbatim>\<open>p1\<close>: the pending selection is \<^verbatim>\<open>[p1]\<close>.\<close>

definition reticked :: world where
  "reticked = handlePermissionToggle ''p1'' True unticked"

text \<open>The dashboard after a replace whose delete was delivered and whose insert was not:
  the handler stops in its \<^verbatim>\<open>catch\<close> branch, before the refetch.\<close>

definition interrupted :: world where
  "interrupted =
     handleAssignPermissions True False 5 True True True
       (handlePermissionToggle ''p1'' True (handleRoleSelect ''r1'' mounted))"

text \<open>What the two statements of a replace leave in the store when both are accepted; it
  abbreviates the proofs below.\<close>

definition replaced :: "database \<Rightarrow> uuid \<Rightarrow> uuid list \<Rightarrow> timestamp \<Rightarrow> database" where
  "replaced d r S now =
     d\<lparr>tbl_role_permissions :=
         filter (\<lambda>row. rp_role_id row \<noteq> r) (tbl_role_permissions d) @
         map (\<lambda>p. \<lparr>rp_role_id = r, rp_permission_id = p, rp_created_at = now\<rparr>) S\<rparr>"

section \<open>Properties\<close>

lemmas handler_defs = via_def issue_def notify_def Let_def

subsection \<open>The fetches\<close>

lemma fetchPermissions_delivered:
  "fetchPermissions True w =
     w\<lparr>calls := calls w @ [Select_call Permissions (Some ''name'')],
       pm_permissions := sort_key p_name (tbl_permissions (db w)),
       pm_loading := False\<rparr>"
  by (simp add: fetchPermissions_def select_permissions_def handler_defs)

lemma fetchPermissions_failed:
  "fetchPermissions False w =
     w\<lparr>calls := calls w @ [Select_call Permissions (Some ''name'')],
       toasts := toasts w @ [failure (Text ''Failed to fetch permissions'')],
       pm_loading := False\<rparr>"
  by (simp add: fetchPermissions_def handler_defs)

lemma fetchData_calls:
  "calls (fetchData a b c w) =
     calls w @ [Select_call Roles (Some ''name''), Select_call Permissions (Some ''name''),
                Select_call RolePermissions None]"
  by (simp add: fetchData_def handler_defs split: sum.splits)

lemma fetchData_db: "db (fetchData a b c w) = db w"
  by (simp add: fetchData_def handler_defs split: sum.splits)

lemma fetchData_delivered:
  "fetchData True True True w =
     w\<lparr>calls := calls w @ [Select_call Roles (Some ''name''),
                           Select_call Permissions (Some ''name''),
                           Select_call RolePermissions None],
       roles := select_roles (db w), permissions := select_permissions (db w),
       rolePermissions := select_role_permissions (db w), loading := False\<rparr>"
  by (simp add: fetchData_def handler_defs)

text \<open>
  \<^bold>\<open>C7.\<close> When its request is delivered, \<^verbatim>\<open>fetchPermissions\<close> leaves in the component's
  list every row of the \<^verbatim>\<open>permissions\<close> table, each as often as the table holds it, in
  ascending order of \<^verbatim>\<open>name\<close>.
\<close>

theorem list_ordered_by_name:
  "sorted (map p_name (pm_permissions (fetchPermissions True w))) \<and>
   mset (pm_permissions (fetchPermissions True w)) = mset (tbl_permissions (db w))"
  by (simp add: fetchPermissions_delivered)

text \<open>On the seeded store the list reads \<^verbatim>\<open>read:users\<close>, \<^verbatim>\<open>write:users\<close>, the reverse of
  the order of insertion.\<close>

theorem list_ordered_by_name_witness:
  "sorted (map p_name (pm_permissions (fetchPermissions True opened))) \<and>
   mset (pm_permissions (fetchPermissions True opened)) = mset (tbl_permissions (db opened)) \<and>
   map p_name (pm_permissions (fetchPermissions True opened)) = [''read:users'', ''write:users'']"
proof -
  have names:
    "map p_name (pm_permissions (fetchPermissions True opened)) = [''read:users'', ''write:users'']"
    by code_simp
  from list_ordered_by_name [of opened] names show ?thesis
    by blast
qed

text \<open>
  \<^bold>\<open>C8\<close>, as amended. A fetch that fails issues its request, shows the one notification
  \<^verbatim>\<open>Failed to fetch permissions\<close>, clears \<^verbatim>\<open>loading\<close> and changes nothing else: the list is
  left as it was. It stays empty when it was empty, as at the first fetch; after a
  mutation whose refetch fails it still holds the rows fetched before.
\<close>

theorem failed_fetch_keeps_list:
  "fetchPermissions False w =
     w\<lparr>calls := calls w @ [Select_call Permissions (Some ''name'')],
       toasts := toasts w @ [failure (Text ''Failed to fetch permissions'')],
       pm_loading := False\<rparr> \<and>
   pm_permissions (pm_handleSubmit name description ok new_id now False w) = pm_permissions w \<and>
   pm_permissions (pm_handleDelete pid confirmed ok False w) = pm_permissions w"
  by (simp add: fetchPermissions_failed pm_handleSubmit_def pm_handleDelete_def handler_defs
      split: option.splits sum.splits)

text \<open>At the first fetch the list stays empty.\<close>

theorem failed_fetch_keeps_list_witness:
  "pm_permissions (fetchPermissions False opened) = [] \<and>
   toasts (fetchPermissions False opened) = [failure (Text ''Failed to fetch permissions'')]"
proof -
  have "pm_permissions opened = []" and "toasts opened = []"
    by (simp_all add: opened_def)
  with failed_fetch_keeps_list [of opened] show ?thesis
    by simp
qed

text \<open>The claim as worded fails after a mutation: a permission is created, the refetch
  is not delivered, and the two rows fetched at mount are still listed.\<close>

theorem failed_refetch_retains_rows_counterexample:
  "map p_id (pm_permissions
     (pm_handleSubmit ''read:reports'' ''Can view reports'' True ''p3'' 4 False mounted)) =
     [''p2'', ''p1'']"
  by code_simp

subsection \<open>Creating a permission\<close>

text \<open>
  \<^bold>\<open>C4.\<close> With no permission being edited, submitting a name that a row of the store
  already carries issues one insert and ends in one error notification: the store's
  uniqueness violation when the request is delivered. The store, the listed rows and the
  dialog are as before; no refetch is issued.
\<close>

theorem create_duplicate_name_rejected:
  assumes "pm_editingPermission w = None"
    and "name \<in> set (map p_name (tbl_permissions (db w)))"
  shows "pm_handleSubmit name description ok new_id now ok_fetch w =
           w\<lparr>calls := calls w @
                [Insert_call Permissions [[(''name'', name), (''description'', description)]]],
             toasts := toasts w @
                [failure (Message (if ok then UniqueViolation else TransportFailure))]\<rparr>"
  using assms by (simp add: pm_handleSubmit_def insert_permission_def handler_defs)

text \<open>Creating \<^verbatim>\<open>read:users\<close> again on the seeded store.\<close>

theorem create_duplicate_name_rejected_witness:
  "pm_editingPermission (pm_openCreateDialog mounted) = None \<and>
   ''read:users'' \<in> set (map p_name (tbl_permissions (db (pm_openCreateDialog mounted)))) \<and>
   db (pm_handleSubmit ''read:users'' ''again'' True ''p3'' 4 True (pm_openCreateDialog mounted)) =
     db (pm_openCreateDialog mounted) \<and>
   toasts (pm_handleSubmit ''read:users'' ''again'' True ''p3'' 4 True
             (pm_openCreateDialog mounted)) =
     toasts (pm_openCreateDialog mounted) @ [failure (Message UniqueViolation)]"
proof -
  have editing: "pm_editingPermission (pm_openCreateDialog mounted) = None"
    by code_simp
  have present:
    "''read:users'' \<in> set (map p_name (tbl_permissions (db (pm_openCreateDialog mounted))))"
    by code_simp
  from create_duplicate_name_rejected [OF editing present, of "''again''" True "''p3''" 4 True]
    editing present
  show ?thesis by simp
qed

subsection \<open>Deleting a role\<close>

text \<open>
  \<^bold>\<open>C5.\<close> A confirmed and delivered delete of the role \<open>r\<close> removes from \<^verbatim>\<open>roles\<close>,
  \<^verbatim>\<open>role_permissions\<close> and \<^verbatim>\<open>user_roles\<close> exactly the rows that carry \<open>r\<close>, keeps every
  other row of the three tables in place, and leaves \<^verbatim>\<open>permissions\<close> alone.
\<close>

theorem delete_role_cascades:
  "tbl_roles (db (rm_handleDelete r True True ok_fetch w)) =
     filter (\<lambda>row. r_id row \<noteq> r) (tbl_roles (db w)) \<and>
   tbl_role_permissions (db (rm_handleDelete r True True ok_fetch w)) =
     filter (\<lambda>row. rp_role_id row \<noteq> r) (tbl_role_permissions (db w)) \<and>
   tbl_user_roles (db (rm_handleDelete r True True ok_fetch w)) =
     filter (\<lambda>row. ur_role_id row \<noteq> r) (tbl_user_roles (db w)) \<and>
   tbl_permissions (db (rm_handleDelete r True True ok_fetch w)) = tbl_permissions (db w)"
  by (cases ok_fetch)
     (simp_all add: rm_handleDelete_def delete_role_def fetchRoles_def handler_defs)

text \<open>Deleting \<^verbatim>\<open>r1\<close> from the seeded store leaves the two assignments and the one user of
  \<^verbatim>\<open>r2\<close>.\<close>

theorem delete_role_cascades_witness:
  "map (\<lambda>row. (rp_role_id row, rp_permission_id row))
     (tbl_role_permissions (db (rm_handleDelete ''r1'' True True True mounted))) =
     [(''r2'', ''p1''), (''r2'', ''p2'')] \<and>
   map (\<lambda>row. (ur_user_id row, ur_role_id row))
     (tbl_user_roles (db (rm_handleDelete ''r1'' True True True mounted))) = [(''u2'', ''r2'')] \<and>
   map r_id (tbl_roles (db (rm_handleDelete ''r1'' True True True mounted))) = [''r2'']"
proof -
  have "map (\<lambda>row. (rp_role_id row, rp_permission_id row))
          (filter (\<lambda>row. rp_role_id row \<noteq> ''r1'') (tbl_role_permissions (db mounted))) =
          [(''r2'', ''p1''), (''r2'', ''p2'')]"
    and "map (\<lambda>row. (ur_user_id row, ur_role_id row))
          (filter (\<lambda>row. ur_role_id row \<noteq> ''r1'') (tbl_user_roles (db mounted))) =
          [(''u2'', ''r2'')]"
    and "map r_id (filter (\<lambda>row. r_id row \<noteq> ''r1'') (tbl_roles (db mounted))) = [''r2'']"
    by code_simp+
  with delete_role_cascades [of "''r1''" True mounted] show ?thesis
    by simp
qed

subsection \<open>The assignment dialog\<close>

text \<open>
  \<^bold>\<open>C2.\<close> With no role selected or with an empty selection, \<^verbatim>\<open>handleAssignPermissions\<close>
  only shows its validation error: no request is issued, and the store, the selected
  role and the pending selection are as before.
\<close>

theorem commit_rejects_empty_selection:
  assumes "selectedRole w = '''' \<or> selectedPermissions w = []"
  shows "handleAssignPermissions ok_delete ok_insert now ok_roles ok_permissions ok_rps w =
           w\<lparr>toasts := toasts w @
                [failure (Text ''Please select a role and at least one permission'')]\<rparr>"
  using assms by (auto simp add: handleAssignPermissions_def notify_def)

text \<open>A role is chosen and its only permission unticked.\<close>

theorem commit_rejects_empty_selection_witness:
  "selectedRole unticked = ''r1'' \<and> selectedPermissions unticked = [] \<and>
   calls (handleAssignPermissions True True 5 True True True unticked) = calls unticked \<and>
   db (handleAssignPermissions True True 5 True True True unticked) = db unticked \<and>
   selectedPermissions (handleAssignPermissions True True 5 True True True unticked) = [] \<and>
   selectedRole (handleAssignPermissions True True 5 True True True unticked) = ''r1'' \<and>
   toasts (handleAssignPermissions True True 5 True True True unticked) =
     toasts unticked @ [failure (Text ''Please select a role and at least one permission'')]"
proof -
  have role: "selectedRole unticked = ''r1''" and none: "selectedPermissions unticked = []"
    by code_simp+
  from none have "selectedRole unticked = '''' \<or> selectedPermissions unticked = []" ..
  from commit_rejects_empty_selection [OF this, of True True 5 True True True] role none
  show ?thesis by simp
qed

text \<open>
  \<^bold>\<open>C9.\<close> Ticking a permission that the pending selection already holds appends it once
  more, so the selection holds it twice; a replace started from there with a role
  selected sends an insert whose payload repeats the pair.
\<close>

theorem toggle_on_appends_again:
  assumes "permissionId \<in> set (selectedPermissions w)"
  shows "selectedPermissions (handlePermissionToggle permissionId True w) =
           selectedPermissions w @ [permissionId] \<and>
         \<not> distinct (selectedPermissions (handlePermissionToggle permissionId True w)) \<and>
         (selectedRole w \<noteq> '''' \<longrightarrow>
            Insert_call RolePermissions
              (map (\<lambda>p. [(''role_id'', selectedRole w), (''permission_id'', p)])
                 (selectedPermissions w @ [permissionId]))
            \<in> set (calls (handleAssignPermissions ok_delete ok_insert now ok_roles ok_permissions
                            ok_rps (handlePermissionToggle permissionId True w))))"
  using assms
  by (auto simp add: handlePermissionToggle_def handleAssignPermissions_def fetchData_calls
      handler_defs comp_def split: sum.splits)

text \<open>Ticking \<^verbatim>\<open>p2\<close> for \<^verbatim>\<open>r1\<close>, which is pre-selected.\<close>

theorem toggle_on_appends_again_witness:
  "''p2'' \<in> set (selectedPermissions (handleRoleSelect ''r1'' mounted)) \<and>
   selectedPermissions (handlePermissionToggle ''p2'' True (handleRoleSelect ''r1'' mounted)) =
     [''p2'', ''p2''] \<and>
   Insert_call RolePermissions
     [[(''role_id'', ''r1''), (''permission_id'', ''p2'')],
      [(''role_id'', ''r1''), (''permission_id'', ''p2'')]]
   \<in> set (calls (handleAssignPermissions True True 5 True True True
                   (handlePermissionToggle ''p2'' True (handleRoleSelect ''r1'' mounted))))"
proof -
  have sel: "selectedPermissions (handleRoleSelect ''r1'' mounted) = [''p2'']"
    and role: "selectedRole (handleRoleSelect ''r1'' mounted) = ''r1''"
    by code_simp+
  from sel have "''p2'' \<in> set (selectedPermissions (handleRoleSelect ''r1'' mounted))"
    by simp
  from toggle_on_appends_again [OF this, of True True 5 True True True] sel role
  show ?thesis by simp
qed

text \<open>
  \<^bold>\<open>C10.\<close> \<^verbatim>\<open>handleRemovePermission\<close> takes no confirmation: its first effect is the delete
  request for the pair, whatever the state. When the delete is delivered, the row of that
  pair is gone and the three fetches of \<^verbatim>\<open>fetchData\<close> follow; when it is not, nothing
  follows. The delete handlers of the two entity managers do nothing at all unless the
  administrator confirms.
\<close>

theorem remove_single_unguarded:
  "calls (handleRemovePermission roleId permissionId ok ok_roles ok_permissions ok_rps w) =
     calls w @
     Delete_call RolePermissions [(''role_id'', roleId), (''permission_id'', permissionId)] #
     (if ok then [Select_call Roles (Some ''name''), Select_call Permissions (Some ''name''),
                  Select_call RolePermissions None]
      else []) \<and>
   db (handleRemovePermission roleId permissionId True ok_roles ok_permissions ok_rps w) =
     (db w)\<lparr>tbl_role_permissions :=
        filter (\<lambda>row. \<not> (rp_role_id row = roleId \<and> rp_permission_id row = permissionId))
          (tbl_role_permissions (db w))\<rparr> \<and>
   pm_handleDelete pid False ok ok_fetch w = w \<and>
   rm_handleDelete rid False ok ok_fetch w = w"
  by (simp add: handleRemovePermission_def delete_role_permission_def fetchData_calls
      fetchData_db pm_handleDelete_def rm_handleDelete_def handler_defs)

text \<open>Removing \<^verbatim>\<open>p2\<close> from \<^verbatim>\<open>r2\<close> on the seeded store.\<close>

theorem remove_single_unguarded_witness:
  "calls (handleRemovePermission ''r2'' ''p2'' True True True True mounted) =
     calls mounted @
     [Delete_call RolePermissions [(''role_id'', ''r2''), (''permission_id'', ''p2'')],
      Select_call Roles (Some ''name''), Select_call Permissions (Some ''name''),
      Select_call RolePermissions None] \<and>
   map (\<lambda>row. (rp_role_id row, rp_permission_id row))
     (tbl_role_permissions (db (handleRemovePermission ''r2'' ''p2'' True True True True mounted))) =
     [(''r1'', ''p2''), (''r2'', ''p1'')]"
proof -
  have "map (\<lambda>row. (rp_role_id row, rp_permission_id row))
          (filter (\<lambda>row. \<not> (rp_role_id row = ''r2'' \<and> rp_permission_id row = ''p2''))
             (tbl_role_permissions (db mounted))) = [(''r1'', ''p2''), (''r2'', ''p1'')]"
    by code_simp
  with remove_single_unguarded [of "''r2''" "''p2''" True True True True mounted]
  show ?thesis by simp
qed

subsection \<open>The constraints are maintained\<close>

text \<open>Every statement the store accepts leaves the constraints in force, so every handler
  does, whatever is delivered and whatever is refused.\<close>

lemma kept_reference:
  assumes "x \<in> f ` set xs" and "x \<noteq> k"
  shows "x \<in> f ` set (filter (\<lambda>row. f row \<noteq> k) xs)"
  using assms by auto

lemma insert_permission_consistent:
  assumes "consistent d" and "insert_permission d new_id now name description = Inr d'"
  shows "consistent d'"
  using assms by (auto simp add: insert_permission_def consistent_def split: if_splits)

lemma update_permission_consistent:
  assumes "consistent d" and "update_permission d pid now name description = Inr d'"
  shows "consistent d'"
proof -
  let ?rows = "map (\<lambda>row. if p_id row = pid
                            then row\<lparr>p_name := name, p_description := Some description,
                                     p_updated_at := now\<rparr>
                            else row) (tbl_permissions d)"
  have ids: "map p_id ?rows = map p_id (tbl_permissions d)"
    by (induction "tbl_permissions d") auto
  from assms(2) have d': "d' = d\<lparr>tbl_permissions := ?rows\<rparr>"
    and names: "distinct (map p_name ?rows)"
    by (auto simp add: update_permission_def Let_def split: if_splits)
  show ?thesis
    using assms(1) names ids unfolding d' consistent_def
    by (simp del: map_map)
qed

lemma delete_permission_consistent:
  assumes "consistent d" and "delete_permission d pid = Inr d'"
  shows "consistent d'"
proof -
  from assms(2)
  have d': "d' = d\<lparr>tbl_permissions := filter (\<lambda>row. p_id row \<noteq> pid) (tbl_permissions d),
                    tbl_role_permissions :=
                      filter (\<lambda>row. rp_permission_id row \<noteq> pid) (tbl_role_permissions d)\<rparr>"
    by (simp add: delete_permission_def)
  have "rp_permission_id row \<in> p_id ` set (filter (\<lambda>row. p_id row \<noteq> pid) (tbl_permissions d))"
    if "row \<in> set (tbl_role_permissions d)" and "rp_permission_id row \<noteq> pid" for row
    using that assms(1) by (intro kept_reference) (simp_all add: consistent_def)
  then show ?thesis
    using assms(1) unfolding d' consistent_def by (simp add: distinct_map_filter)
qed

lemma delete_role_consistent:
  assumes "consistent d" and "delete_role d rid = Inr d'"
  shows "consistent d'"
proof -
  from assms(2)
  have d': "d' = d\<lparr>tbl_roles := filter (\<lambda>row. r_id row \<noteq> rid) (tbl_roles d),
                    tbl_role_permissions :=
                      filter (\<lambda>row. rp_role_id row \<noteq> rid) (tbl_role_permissions d),
                    tbl_user_roles :=
                      filter (\<lambda>row. ur_role_id row \<noteq> rid) (tbl_user_roles d)\<rparr>"
    by (simp add: delete_role_def)
  have "rp_role_id row \<in> r_id ` set (filter (\<lambda>row. r_id row \<noteq> rid) (tbl_roles d))"
    if "row \<in> set (tbl_role_permissions d)" and "rp_role_id row \<noteq> rid" for row
    using that assms(1) by (intro kept_reference) (simp_all add: consistent_def)
  moreover
  have "ur_role_id row \<in> r_id ` set (filter (\<lambda>row. r_id row \<noteq> rid) (tbl_roles d))"
    if "row \<in> set (tbl_user_roles d)" and "ur_role_id row \<noteq> rid" for row
    using that assms(1) by (intro kept_reference) (simp_all add: consistent_def)
  ultimately show ?thesis
    using assms(1) unfolding d' consistent_def by (simp add: distinct_map_filter)
qed

lemma delete_role_permissions_consistent:
  assumes "consistent d" and "delete_role_permissions d rid = Inr d'"
  shows "consistent d'"
  using assms
  by (auto simp add: delete_role_permissions_def consistent_def distinct_map_filter)

lemma delete_role_permission_consistent:
  assumes "consistent d" and "delete_role_permission d rid pid = Inr d'"
  shows "consistent d'"
  using assms
  by (auto simp add: delete_role_permission_def consistent_def distinct_map_filter)

lemma insert_role_permissions_consistent:
  assumes "consistent d" and "insert_role_permissions d now insertData = Inr d'"
  shows "consistent d'"
proof -
  let ?key = "\<lambda>row. (rp_role_id row, rp_permission_id row)"
  let ?new = "map (\<lambda>(roleId, permissionId).
                     \<lparr>rp_role_id = roleId, rp_permission_id = permissionId,
                      rp_created_at = now\<rparr>) insertData"
  from assms(2) have d': "d' = d\<lparr>tbl_role_permissions := tbl_role_permissions d @ ?new\<rparr>"
    and pk: "distinct (map ?key (tbl_role_permissions d) @ insertData)"
    and fk: "\<forall>(roleId, permissionId) \<in> set insertData.
               roleId \<in> set (map r_id (tbl_roles d)) \<and>
               permissionId \<in> set (map p_id (tbl_permissions d))"
    by (auto simp add: insert_role_permissions_def Let_def split: if_splits)
  have keys: "map ?key ?new = insertData"
    by (induction insertData) auto
  have "distinct (map ?key (tbl_role_permissions d @ ?new))"
    using pk by (simp only: map_append keys)
  moreover
  have "rp_role_id row \<in> set (map r_id (tbl_roles d)) \<and>
        rp_permission_id row \<in> set (map p_id (tbl_permissions d))"
    if "row \<in> set ?new" for row
    using that fk by auto
  ultimately show ?thesis
    using assms(1) unfolding d' consistent_def by auto
qed

lemma fetchPermissions_db: "db (fetchPermissions ok w) = db w"
  by (simp add: fetchPermissions_def handler_defs split: sum.splits)

lemma fetchRoles_db: "db (fetchRoles ok w) = db w"
  by (simp add: fetchRoles_def handler_defs split: sum.splits)

lemma pm_handleSubmit_consistent:
  assumes "consistent (db w)"
  shows "consistent (db (pm_handleSubmit name description ok new_id now ok_fetch w))"
  using assms
  by (auto simp add: pm_handleSubmit_def handler_defs fetchPermissions_db
      split: option.splits sum.splits if_splits
      intro: insert_permission_consistent update_permission_consistent)

lemma pm_handleDelete_consistent:
  assumes "consistent (db w)"
  shows "consistent (db (pm_handleDelete pid confirmed ok ok_fetch w))"
  using assms
  by (auto simp add: pm_handleDelete_def handler_defs fetchPermissions_db
      split: sum.splits if_splits intro: delete_permission_consistent)

lemma rm_handleDelete_consistent:
  assumes "consistent (db w)"
  shows "consistent (db (rm_handleDelete rid confirmed ok ok_fetch w))"
  using assms
  by (auto simp add: rm_handleDelete_def handler_defs fetchRoles_db
      split: sum.splits if_splits intro: delete_role_consistent)

lemma handleRemovePermission_consistent:
  assumes "consistent (db w)"
  shows "consistent (db (handleRemovePermission roleId permissionId ok a b c w))"
  using assms
  by (auto simp add: handleRemovePermission_def handler_defs fetchData_db
      split: sum.splits if_splits intro: delete_role_permission_consistent)

lemma handleAssignPermissions_consistent:
  assumes "consistent (db w)"
  shows "consistent (db (handleAssignPermissions ok_delete ok_insert now a b c w))"
proof -
  have "consistent
          (case via ok_delete (delete_role_permissions (db w) (selectedRole w)) of
             Inl e \<Rightarrow> db w
           | Inr d \<Rightarrow> d)"
    using assms
    by (auto simp add: via_def split: sum.splits if_splits
        intro: delete_role_permissions_consistent)
  with assms show ?thesis
    by (auto simp add: handleAssignPermissions_def handler_defs fetchData_db
        split: sum.splits if_splits
        intro: insert_role_permissions_consistent delete_role_permissions_consistent)
qed

subsection \<open>The joined fetch\<close>

lemma join_row_ids:
  "join_row d row = Some v \<Longrightarrow>
     role_id v = rp_role_id row \<and> permission_id v = rp_permission_id row"
  by (auto simp add: join_row_def split: option.splits)

lemma join_row_parents:
  assumes "rp_role_id row \<in> set (map r_id (tbl_roles d))"
    and "rp_permission_id row \<in> set (map p_id (tbl_permissions d))"
  shows "join_row d row \<noteq> None"
  using assms by (auto simp add: join_row_def find_None_iff split: option.splits)

lemma join_row_cong:
  assumes "tbl_roles d = tbl_roles d'" and "tbl_permissions d = tbl_permissions d'"
    and "rp_role_id row = rp_role_id row'" and "rp_permission_id row = rp_permission_id row'"
  shows "join_row d row = join_row d' row'"
  using assms by (simp add: join_row_def split: option.splits)

lemma filter_join:
  "filter (\<lambda>v. role_id v = r) (List.map_filter (join_row d) rows) =
     List.map_filter (join_row d) (filter (\<lambda>row. rp_role_id row = r) rows)"
proof (induction rows)
  case Nil
  show ?case by (simp add: List.map_filter_simps)
next
  case (Cons row rows)
  show ?case
  proof (cases "join_row d row")
    case None
    then show ?thesis using Cons by (simp add: List.map_filter_simps)
  next
    case (Some v)
    then show ?thesis using Cons join_row_ids [OF Some] by (simp add: List.map_filter_simps)
  qed
qed

lemma map_filter_all:
  assumes "\<forall>x \<in> set xs. f x \<noteq> None"
  shows "List.map_filter f xs = map (\<lambda>x. the (f x)) xs"
  using assms by (induction xs) (auto simp add: List.map_filter_simps)

lemma join_all_ids:
  assumes "\<forall>row \<in> set rows. join_row d row \<noteq> None"
  shows "map permission_id (List.map_filter (join_row d) rows) = map rp_permission_id rows"
  using assms
proof (induction rows)
  case Nil
  show ?case by (simp add: List.map_filter_simps)
next
  case (Cons row rows)
  then obtain v where v: "join_row d row = Some v" by auto
  from join_row_ids [OF v] v Cons show ?case
    by (simp add: List.map_filter_simps)
qed

text \<open>What \<^verbatim>\<open>getRolePermissions\<close> shows after a delivered \<^verbatim>\<open>fetchData\<close>.\<close>

lemma view_of_role:
  "getRolePermissions r (fetchData True True True w) =
     List.map_filter (join_row (db w))
       (filter (\<lambda>row. rp_role_id row = r) (tbl_role_permissions (db w)))"
  by (simp add: getRolePermissions_def fetchData_delivered select_role_permissions_def
      filter_join)

subsection \<open>Selecting a role and toggling\<close>

text \<open>
  \<^bold>\<open>C6\<close>, as amended. \<^verbatim>\<open>handleRoleSelect\<close> sets the selected role and seeds the pending
  selection with the permission ids that the component's own \<^verbatim>\<open>rolePermissions\<close> list holds
  for that role, and touches nothing else. Right after a delivered \<^verbatim>\<open>fetchData\<close> on a
  store that satisfies its constraints, those are the permission ids of the role's rows
  in \<^verbatim>\<open>role_permissions\<close>. \<^verbatim>\<open>handlePermissionToggle\<close> changes the pending selection only:
  it appends the id, or removes every occurrence of it.
\<close>

theorem select_role_seeds_from_snapshot:
  "handleRoleSelect r w =
     w\<lparr>selectedRole := r,
       selectedPermissions := map permission_id (getRolePermissions r w)\<rparr> \<and>
   (consistent (db w) \<longrightarrow>
      selectedPermissions (handleRoleSelect r (fetchData True True True w)) =
        map rp_permission_id
          (filter (\<lambda>row. rp_role_id row = r) (tbl_role_permissions (db w)))) \<and>
   handlePermissionToggle p checked w =
     w\<lparr>selectedPermissions :=
         (if checked then selectedPermissions w @ [p]
          else filter (\<lambda>id. id \<noteq> p) (selectedPermissions w))\<rparr>"
proof -
  have "selectedPermissions (handleRoleSelect r (fetchData True True True w)) =
        map rp_permission_id
          (filter (\<lambda>row. rp_role_id row = r) (tbl_role_permissions (db w)))"
    if "consistent (db w)"
  proof -
    have "join_row (db w) row \<noteq> None" if "row \<in> set (tbl_role_permissions (db w))" for row
      using that \<open>consistent (db w)\<close>
      by (intro join_row_parents) (simp_all add: consistent_def)
    then have "\<forall>row \<in> set (filter (\<lambda>row. rp_role_id row = r) (tbl_role_permissions (db w))).
                 join_row (db w) row \<noteq> None"
      by simp
    from join_all_ids [OF this] show ?thesis
      by (simp add: handleRoleSelect_def view_of_role)
  qed
  then show ?thesis
    by (simp add: handleRoleSelect_def handlePermissionToggle_def)
qed

text \<open>Selecting \<^verbatim>\<open>r2\<close> after a fresh fetch of the seeded store, then unticking \<^verbatim>\<open>p1\<close>.\<close>

theorem select_role_seeds_from_snapshot_witness:
  "consistent (db mounted) \<and>
   selectedPermissions (handleRoleSelect ''r2'' (fetchData True True True mounted)) =
     [''p1'', ''p2''] \<and>
   db (handlePermissionToggle ''p1'' False (handleRoleSelect ''r2'' mounted)) = db mounted \<and>
   calls (handlePermissionToggle ''p1'' False (handleRoleSelect ''r2'' mounted)) =
     calls mounted \<and>
   selectedPermissions (handlePermissionToggle ''p1'' False (handleRoleSelect ''r2'' mounted)) =
     [''p2'']"
proof -
  have ok: "consistent (db mounted)"
    by code_simp
  have rows: "map rp_permission_id
                (filter (\<lambda>row. rp_role_id row = ''r2'') (tbl_role_permissions (db mounted))) =
              [''p1'', ''p2'']"
    and view: "map permission_id (getRolePermissions ''r2'' mounted) = [''p1'', ''p2'']"
    by code_simp+
  from select_role_seeds_from_snapshot [of "''r2''" mounted "''p1''" False]
    select_role_seeds_from_snapshot
      [of "''r2''" "handleRoleSelect ''r2'' mounted" "''p1''" False]
    ok rows view
  show ?thesis by simp
qed

text \<open>The claim as worded fails when the component's list is behind the store. After the
  interrupted replace the store holds no row for \<^verbatim>\<open>r1\<close>, and selecting \<^verbatim>\<open>r1\<close> still seeds
  the selection with \<^verbatim>\<open>p2\<close>.\<close>

theorem select_role_stale_counterexample:
  "selectedPermissions (handleRoleSelect ''r1'' interrupted) = [''p2''] \<and>
   map rp_permission_id
     (filter (\<lambda>row. rp_role_id row = ''r1'') (tbl_role_permissions (db interrupted))) = []"
  by code_simp

subsection \<open>The two-step replace\<close>

lemma insert_accepts:
  assumes "distinct (map (\<lambda>row. (rp_role_id row, rp_permission_id row)) rows)"
    and "distinct S"
  shows "distinct (map (\<lambda>row. (rp_role_id row, rp_permission_id row))
                     (filter (\<lambda>row. rp_role_id row \<noteq> r) rows) @ map (Pair r) S)"
  using assms by (auto simp add: distinct_map_filter distinct_map inj_on_def)

text \<open>The handler on a selection the store accepts, with both statements delivered.\<close>

lemma commit_delivered:
  assumes "selectedRole w = r" and "selectedPermissions w = S" and "r \<noteq> ''''" and "S \<noteq> []"
    and "distinct (map (\<lambda>row. (rp_role_id row, rp_permission_id row))
                    (tbl_role_permissions (db w)))"
    and "r \<in> set (map r_id (tbl_roles (db w)))"
    and "set S \<subseteq> set (map p_id (tbl_permissions (db w)))"
    and "distinct S"
  shows "handleAssignPermissions True True now a b c w =
     fetchData a b c
       (w\<lparr>calls := calls w @
            [Delete_call RolePermissions [(''role_id'', r)],
             Insert_call RolePermissions
               (map (\<lambda>p. [(''role_id'', r), (''permission_id'', p)]) S)],
          db := replaced (db w) r S now,
          toasts := toasts w @ [success ''Permissions assigned successfully''],
          isDialogOpen := False, selectedRole := '''', selectedPermissions := []\<rparr>)"
proof -
  have pk: "distinct (map (\<lambda>row. (rp_role_id row, rp_permission_id row))
                       (filter (\<lambda>row. rp_role_id row \<noteq> r) (tbl_role_permissions (db w))) @
                     map (Pair r) S)"
    using assms(5,8) by (rule insert_accepts)
  have fk: "\<forall>p \<in> set S. p \<in> p_id ` set (tbl_permissions (db w))"
    using assms(7) by auto
  show ?thesis
    using assms(1-4,6) pk fk
    by (simp add: handleAssignPermissions_def delete_role_permissions_def
        insert_role_permissions_def replaced_def handler_defs comp_def)
qed

lemma replaced_view:
  assumes "r \<in> set (map r_id (tbl_roles d))"
    and "set S \<subseteq> set (map p_id (tbl_permissions d))"
  shows "List.map_filter (join_row (replaced d r S now))
           (filter (\<lambda>row. rp_role_id row = r) (tbl_role_permissions (replaced d r S now))) =
         map (\<lambda>p. the (join_row d
                \<lparr>rp_role_id = r, rp_permission_id = p, rp_created_at = 0\<rparr>)) S"
proof -
  have same: "join_row (replaced d r S now)
                \<lparr>rp_role_id = r, rp_permission_id = p, rp_created_at = now\<rparr> =
              join_row d \<lparr>rp_role_id = r, rp_permission_id = p, rp_created_at = 0\<rparr>" for p
    by (rule join_row_cong) (simp_all add: replaced_def)
  have some: "join_row d \<lparr>rp_role_id = r, rp_permission_id = p, rp_created_at = 0\<rparr> \<noteq> None"
    if "p \<in> set S" for p
    using that assms by (intro join_row_parents) auto
  have rows: "filter (\<lambda>row. rp_role_id row = r) (tbl_role_permissions (replaced d r S now)) =
      map (\<lambda>p. \<lparr>rp_role_id = r, rp_permission_id = p, rp_created_at = now\<rparr>) S"
    by (simp add: replaced_def filter_map comp_def)
  have "List.map_filter (join_row (replaced d r S now))
          (map (\<lambda>p. \<lparr>rp_role_id = r, rp_permission_id = p, rp_created_at = now\<rparr>) S) =
        map (\<lambda>x. the (join_row (replaced d r S now) x))
          (map (\<lambda>p. \<lparr>rp_role_id = r, rp_permission_id = p, rp_created_at = now\<rparr>) S)"
    by (rule map_filter_all) (use some same in auto)
  then show ?thesis
    by (simp add: rows same comp_def)
qed

lemma replaced_view_ids:
  assumes "r \<in> set (map r_id (tbl_roles d))"
    and "set S \<subseteq> set (map p_id (tbl_permissions d))"
  shows "map permission_id
           (map (\<lambda>p. the (join_row d
                  \<lparr>rp_role_id = r, rp_permission_id = p, rp_created_at = 0\<rparr>)) S) = S"
proof -
  have "permission_id (the (join_row d
          \<lparr>rp_role_id = r, rp_permission_id = p, rp_created_at = 0\<rparr>)) = p"
    if "p \<in> set S" for p
  proof -
    have "join_row d \<lparr>rp_role_id = r, rp_permission_id = p, rp_created_at = 0\<rparr> \<noteq> None"
      using that assms by (intro join_row_parents) auto
    then obtain v
      where v: "join_row d \<lparr>rp_role_id = r, rp_permission_id = p, rp_created_at = 0\<rparr> = Some v"
      by auto
    from join_row_ids [OF v] v show ?thesis by simp
  qed
  then show ?thesis by (simp add: map_idI)
qed

lemma replaced_keys:
  assumes "distinct (map (\<lambda>row. (rp_role_id row, rp_permission_id row))
                      (tbl_role_permissions d))"
    and "distinct S"
  shows "distinct (map (\<lambda>row. (rp_role_id row, rp_permission_id row))
                     (tbl_role_permissions (replaced d r S now)))"
  using insert_accepts [OF assms, of r] by (simp add: replaced_def comp_def)

lemma commit_view:
  assumes "selectedRole w = r" and "selectedPermissions w = S" and "r \<noteq> ''''" and "S \<noteq> []"
    and "distinct (map (\<lambda>row. (rp_role_id row, rp_permission_id row))
                    (tbl_role_permissions (db w)))"
    and "r \<in> set (map r_id (tbl_roles (db w)))"
    and "set S \<subseteq> set (map p_id (tbl_permissions (db w)))"
    and "distinct S"
  shows "db (handleAssignPermissions True True now True True True w) = replaced (db w) r S now"
    and "getRolePermissions r (handleAssignPermissions True True now True True True w) =
         map (\<lambda>p. the (join_row (db w)
                \<lparr>rp_role_id = r, rp_permission_id = p, rp_created_at = 0\<rparr>)) S"
    and "calls (handleAssignPermissions True True now True True True w) =
         calls w @
           [Delete_call RolePermissions [(''role_id'', r)],
            Insert_call RolePermissions
              (map (\<lambda>p. [(''role_id'', r), (''permission_id'', p)]) S),
            Select_call Roles (Some ''name''), Select_call Permissions (Some ''name''),
            Select_call RolePermissions None]"
proof -
  note step = commit_delivered [OF assms, of now True True True]
  show "db (handleAssignPermissions True True now True True True w) = replaced (db w) r S now"
    by (simp add: step fetchData_db)
  show "getRolePermissions r (handleAssignPermissions True True now True True True w) =
         map (\<lambda>p. the (join_row (db w)
                \<lparr>rp_role_id = r, rp_permission_id = p, rp_created_at = 0\<rparr>)) S"
    by (simp add: step view_of_role replaced_view [OF assms(6,7)])
  show "calls (handleAssignPermissions True True now True True True w) =
         calls w @
           [Delete_call RolePermissions [(''role_id'', r)],
            Insert_call RolePermissions
              (map (\<lambda>p. [(''role_id'', r), (''permission_id'', p)]) S),
            Select_call Roles (Some ''name''), Select_call Permissions (Some ''name''),
            Select_call RolePermissions None]"
    by (simp add: step fetchData_calls)
qed

text \<open>
  \<^bold>\<open>C1\<close>, as amended. Let the store satisfy its constraints, the selected role \<open>r\<close> be a
  row of \<^verbatim>\<open>roles\<close>, and the pending selection \<open>S\<close> be non-empty, free of repetitions and
  made of ids of rows of \<^verbatim>\<open>permissions\<close>. When the delete, the insert and the refetch are
  all delivered, \<^verbatim>\<open>handleAssignPermissions\<close> issues the delete for \<open>r\<close>, then the insert of
  one pair per id of \<open>S\<close>, then the three fetches; the table holds the rows of the other
  roles followed by the new rows; and \<^verbatim>\<open>getRolePermissions r\<close> shows the ids of \<open>S\<close>,
  each once. Doing the same replace again shows the same rows.
\<close>

theorem commit_replaces_assignment:
  assumes "selectedRole w = r" and "selectedPermissions w = S" and "r \<noteq> ''''" and "S \<noteq> []"
    and "consistent (db w)"
    and "r \<in> set (map r_id (tbl_roles (db w)))"
    and "set S \<subseteq> set (map p_id (tbl_permissions (db w)))"
    and "distinct S"
    and "w' = handleAssignPermissions True True now True True True w"
    and "w'' = handleAssignPermissions True True now' True True True
                 (w'\<lparr>selectedRole := r, selectedPermissions := S\<rparr>)"
  shows "calls w' =
           calls w @
           [Delete_call RolePermissions [(''role_id'', r)],
            Insert_call RolePermissions
              (map (\<lambda>p. [(''role_id'', r), (''permission_id'', p)]) S),
            Select_call Roles (Some ''name''), Select_call Permissions (Some ''name''),
            Select_call RolePermissions None] \<and>
         tbl_role_permissions (db w') =
           filter (\<lambda>row. rp_role_id row \<noteq> r) (tbl_role_permissions (db w)) @
           map (\<lambda>p. \<lparr>rp_role_id = r, rp_permission_id = p, rp_created_at = now\<rparr>) S \<and>
         mset (map permission_id (getRolePermissions r w')) = mset S \<and>
         mset (getRolePermissions r w'') = mset (getRolePermissions r w')"
proof -
  have pk: "distinct (map (\<lambda>row. (rp_role_id row, rp_permission_id row))
                       (tbl_role_permissions (db w)))"
    using assms(5) by (simp add: consistent_def)
  note first = commit_view [OF assms(1-4) pk assms(6-8), of now]
  let ?v = "w'\<lparr>selectedRole := r, selectedPermissions := S\<rparr>"
  have db_v: "db ?v = replaced (db w) r S now"
    by (simp add: assms(9) first(1))
  have pk_v: "distinct (map (\<lambda>row. (rp_role_id row, rp_permission_id row))
                         (tbl_role_permissions (db ?v)))"
    unfolding db_v using pk assms(8) by (rule replaced_keys)
  have roles_v: "r \<in> set (map r_id (tbl_roles (db ?v)))"
    unfolding db_v using assms(6) by (simp add: replaced_def)
  have perms_v: "set S \<subseteq> set (map p_id (tbl_permissions (db ?v)))"
    unfolding db_v using assms(7) by (simp add: replaced_def)
  have "getRolePermissions r w'' =
          map (\<lambda>p. the (join_row (db ?v)
                 \<lparr>rp_role_id = r, rp_permission_id = p, rp_created_at = 0\<rparr>)) S"
    unfolding assms(10)
    by (rule commit_view(2) [OF _ _ assms(3,4) pk_v roles_v perms_v assms(8)]) simp_all
  also have "\<dots> = map (\<lambda>p. the (join_row (db w)
                        \<lparr>rp_role_id = r, rp_permission_id = p, rp_created_at = 0\<rparr>)) S"
    unfolding db_v
    by (rule map_cong [OF refl], rule arg_cong [where f = the], rule join_row_cong)
       (simp_all add: replaced_def)
  finally have again: "getRolePermissions r w'' = getRolePermissions r w'"
    by (simp add: assms(9) first(2))
  have ids: "map permission_id (getRolePermissions r w') = S"
    using replaced_view_ids [OF assms(6,7)] by (simp add: assms(9) first(2))
  show ?thesis
    using first(1,3) again ids by (simp add: assms(9) replaced_def)
qed

text \<open>Replacing the permissions of \<^verbatim>\<open>r1\<close>, which holds \<^verbatim>\<open>p2\<close>, by \<^verbatim>\<open>p1\<close>, twice.\<close>

theorem commit_replaces_assignment_witness:
  "selectedRole reticked = ''r1'' \<and> selectedPermissions reticked = [''p1''] \<and>
   consistent (db reticked) \<and>
   map permission_id (getRolePermissions ''r1'' reticked) = [''p2''] \<and>
   mset (map permission_id
           (getRolePermissions ''r1''
              (handleAssignPermissions True True 5 True True True reticked))) = mset [''p1''] \<and>
   mset (getRolePermissions ''r1''
           (handleAssignPermissions True True 6 True True True
              ((handleAssignPermissions True True 5 True True True reticked)
                 \<lparr>selectedRole := ''r1'', selectedPermissions := [''p1'']\<rparr>))) =
     mset (getRolePermissions ''r1''
             (handleAssignPermissions True True 5 True True True reticked))"
proof -
  have role: "selectedRole reticked = ''r1''"
    and sel: "selectedPermissions reticked = [''p1'']"
    and ok: "consistent (db reticked)"
    and before: "map permission_id (getRolePermissions ''r1'' reticked) = [''p2'']"
    and known_role: "''r1'' \<in> set (map r_id (tbl_roles (db reticked)))"
    and known_ids: "set [''p1''] \<subseteq> set (map p_id (tbl_permissions (db reticked)))"
    by code_simp+
  have "''r1'' \<noteq> ''''" and "[''p1''] \<noteq> []" and "distinct [''p1'']"
    by simp_all
  from commit_replaces_assignment
    [OF role sel this(1,2) ok known_role known_ids this(3) refl refl, of 5 6]
    role sel ok before
  show ?thesis by simp
qed

text \<open>The claim as worded fails on a selection the store rejects. With \<^verbatim>\<open>r1\<close> selected and
  the pending selection \<^verbatim>\<open>[p9]\<close>, an id that no row of \<^verbatim>\<open>permissions\<close> carries, the delete
  is applied and the insert is refused: the handler reports the error and does not
  refetch, so \<^verbatim>\<open>getRolePermissions\<close> still shows \<^verbatim>\<open>p2\<close>, and shows nothing after a fetch.\<close>

theorem commit_unknown_permission_counterexample:
  "selectedRole (mounted\<lparr>selectedRole := ''r1'', selectedPermissions := [''p9'']\<rparr>) = ''r1'' \<and>
   selectedPermissions (mounted\<lparr>selectedRole := ''r1'', selectedPermissions := [''p9'']\<rparr>) =
     [''p9''] \<and>
   toasts (handleAssignPermissions True True 5 True True True
             (mounted\<lparr>selectedRole := ''r1'', selectedPermissions := [''p9'']\<rparr>)) =
     [failure (Message ForeignKeyViolation)] \<and>
   map permission_id (getRolePermissions ''r1''
     (handleAssignPermissions True True 5 True True True
        (mounted\<lparr>selectedRole := ''r1'', selectedPermissions := [''p9'']\<rparr>))) = [''p2''] \<and>
   map permission_id (getRolePermissions ''r1''
     (fetchData True True True
        (handleAssignPermissions True True 5 True True True
           (mounted\<lparr>selectedRole := ''r1'', selectedPermissions := [''p9'']\<rparr>)))) = []"
  by code_simp

text \<open>
  \<^bold>\<open>C3.\<close> The result of the delete request of the replace is dropped. With \<^verbatim>\<open>r1\<close>
  selected, \<^verbatim>\<open>p2\<close> unticked and \<^verbatim>\<open>p1\<close> ticked, a delete that is not delivered is followed
  by the insert all the same: the only notification is the success message, and \<^verbatim>\<open>r1\<close>
  ends with \<^verbatim>\<open>p2\<close> and \<^verbatim>\<open>p1\<close>.
\<close>

theorem replace_delete_failure_unreported:
  "selectedRole reticked = ''r1'' \<and> selectedPermissions reticked = [''p1''] \<and>
   toasts (handleAssignPermissions False True 5 True True True reticked) =
     [success ''Permissions assigned successfully''] \<and>
   map permission_id
     (getRolePermissions ''r1'' (handleAssignPermissions False True 5 True True True reticked)) =
     [''p2'', ''p1'']"
  by code_simp

text \<open>The sibling handler reads the \<^verbatim>\<open>error\<close> field of its delete and reports it.\<close>

lemma remove_failure_reported:
  "handleRemovePermission roleId permissionId False ok_roles ok_permissions ok_rps w =
     w\<lparr>calls := calls w @
          [Delete_call RolePermissions [(''role_id'', roleId), (''permission_id'', permissionId)]],
       toasts := toasts w @ [failure (Message TransportFailure)]\<rparr>"
  by (simp add: handleRemovePermission_def handler_defs)

end
